theory Spec2Isabelle
  imports Main
begin

section \<open>The transaction manager: data model\<close>

text \<open>
  Go \<^verbatim>\<open>error\<close> values. \<^verbatim>\<open>errors.New(s)\<close> and every business or context error is
  \<open>New s\<close>; \<^verbatim>\<open>fmt.Errorf("...%w", e)\<close> is \<open>Errorf_w\<close> with the prefix and the wrapped
  error; \<open>NilPointer\<close> is the runtime error of a method call through a nil
  \<^verbatim>\<open>*gorm.DB\<close>.
\<close>

datatype error = New string | Errorf_w string error | NilPointer

text \<open>
  The value handed to \<^verbatim>\<open>panic\<close>: either an \<^verbatim>\<open>error\<close> (the type assertion
  \<^verbatim>\<open>r.(error)\<close> succeeds) or another value, kept as its \<^verbatim>\<open>%v\<close> rendering.
  A nil value is left out: the deferred function acts only when \<^verbatim>\<open>recover()\<close> is not
  nil, and from Go 1.21 on \<^verbatim>\<open>panic(nil)\<close> raises a runtime error, which is the first
  case.
\<close>

datatype panic_value = PanicError error | PanicValue string

text \<open>
  A \<^verbatim>\<open>*gorm.DB\<close>: a plain connection, or the transactional handle that
  \<^verbatim>\<open>BeginTx\<close> returns for a handle.
\<close>

datatype handle = Conn nat | Tx handle

text \<open>The calls issued to a handle, in the order they are issued.\<close>

datatype event = Begin handle | Commit handle | Rollback handle

record dbWrapper =
  db :: "handle option"
  inTransaction :: bool
  err :: "error option"

text \<open>
  The state a call runs in: the \<^verbatim>\<open>dbWrapper\<close> objects by address (the context holds
  a pointer, and nested calls mutate the object the owner later reads), the next free
  address, the calls issued to handles, the messages given to \<^verbatim>\<open>logger.Error\<close>, and
  what \<^verbatim>\<open>ctx.Err()\<close> returns for the request's context chain
  (\<^verbatim>\<open>context.WithValue\<close> keeps the parent's cancellation).
\<close>

record world =
  heap :: "nat \<Rightarrow> dbWrapper"
  nextAddr :: nat
  trace :: "event list"
  logs :: "string list"
  ctxErr :: "error option"

text \<open>
  A context, as far as this manager reads it: the pointer stored under the manager's
  \<^verbatim>\<open>ctxDbWrapperKey\<close>, if any.
\<close>

record ctx =
  ctxValue :: "nat option"

text \<open>
  The collaborators outside the package: what \<^verbatim>\<open>client.GetDB\<close> returns (\<open>None\<close> is
  nil) and the \<^verbatim>\<open>Error\<close> field of the handle that \<^verbatim>\<open>Commit\<close> and
  \<^verbatim>\<open>Rollback\<close> return.
\<close>

record driver =
  getDb :: "handle option"
  commitError :: "handle \<Rightarrow> error option"
  rollbackError :: "handle \<Rightarrow> error option"

text \<open>
  How a function body ends: it returns \<^verbatim>\<open>(res, err)\<close> (\<open>None\<close> is nil), or it is
  panicking.
\<close>

datatype 'r outcome = Returned "'r option" "error option" | Panicked panic_value

type_synonym 'r callback = "ctx \<Rightarrow> world \<Rightarrow> 'r outcome \<times> world"

section \<open>The transaction manager: operations\<close>

definition empty_wrapper :: dbWrapper where
  "empty_wrapper = \<lparr>db = None, inTransaction = False, err = None\<rparr>"

definition reset :: "nat \<Rightarrow> world \<Rightarrow> world" where
  "reset a w = w\<lparr>heap := (heap w)(a := empty_wrapper)\<rparr>"

definition set_err :: "nat \<Rightarrow> error option \<Rightarrow> world \<Rightarrow> world" where
  "set_err a e w = w\<lparr>heap := (heap w)(a := (heap w a)\<lparr>err := e\<rparr>)\<rparr>"

definition logger_Error :: "string \<Rightarrow> world \<Rightarrow> world" where
  "logger_Error msg w = w\<lparr>logs := logs w @ [msg]\<rparr>"

definition getDbWrapper :: "ctx \<Rightarrow> nat option" where
  "getDbWrapper c = ctxValue c"

definition setDbWrapper :: "ctx \<Rightarrow> nat \<Rightarrow> ctx" where
  "setDbWrapper c a = c\<lparr>ctxValue := Some a\<rparr>"

definition db_BeginTx :: "handle \<Rightarrow> world \<Rightarrow> handle \<times> world" where
  "db_BeginTx h w = (Tx h, w\<lparr>trace := trace w @ [Begin h]\<rparr>)"

text \<open>
  \<^verbatim>\<open>wrapper.db.Rollback().Error\<close> and \<^verbatim>\<open>wrapper.db.Commit().Error\<close>: through a nil
  \<^verbatim>\<open>wrapper.db\<close> the call panics before anything is issued.
\<close>

definition db_Rollback ::
    "driver \<Rightarrow> handle option \<Rightarrow> world \<Rightarrow> (panic_value + error option) \<times> world" where
  "db_Rollback drv ho w =
     (case ho of
        None \<Rightarrow> (Inl (PanicError NilPointer), w)
      | Some h \<Rightarrow> (Inr (rollbackError drv h), w\<lparr>trace := trace w @ [Rollback h]\<rparr>))"

definition db_Commit ::
    "driver \<Rightarrow> handle option \<Rightarrow> world \<Rightarrow> (panic_value + error option) \<times> world" where
  "db_Commit drv ho w =
     (case ho of
        None \<Rightarrow> (Inl (PanicError NilPointer), w)
      | Some h \<Rightarrow> (Inr (commitError drv h), w\<lparr>trace := trace w @ [Commit h]\<rparr>))"

text \<open>\<^verbatim>\<open>GetDb\<close>: the wrapper's handle when the context has one, else the connection source's.\<close>

definition GetDb :: "driver \<Rightarrow> ctx \<Rightarrow> world \<Rightarrow> handle option \<times> world" where
  "GetDb drv c w =
     (case getDbWrapper c of
        None \<Rightarrow> (getDb drv, w)
      | Some a \<Rightarrow>
          (case db (heap w a) of
             None \<Rightarrow> (getDb drv, w)
           | Some h \<Rightarrow> (Some h, w)))"

text \<open>
  \<^verbatim>\<open>Transaction\<close>, up to the \<^verbatim>\<open>defer\<close>: either the early return's error, or the
  wrapper's address, the context the callback will get, \<^verbatim>\<open>txOpenByMe\<close> and the
  state.
\<close>

definition open_new :: "driver \<Rightarrow> ctx \<Rightarrow> world \<Rightarrow> error + (nat \<times> ctx \<times> bool \<times> world)" where
  "open_new drv c w =
     (case getDb drv of
        Some d \<Rightarrow>
          (let (tx, w1) = db_BeginTx d w;
               a = nextAddr w1;
               w2 = w1\<lparr>heap := (heap w1)(a := \<lparr>db = Some tx, inTransaction = True, err = None\<rparr>),
                       nextAddr := Suc a\<rparr>
           in Inr (a, setDbWrapper c a, True, w2))
      | None \<Rightarrow> Inl (New ''can not get db connection''))"

definition enter :: "driver \<Rightarrow> ctx \<Rightarrow> world \<Rightarrow> error + (nat \<times> ctx \<times> bool \<times> world)" where
  "enter drv c w =
     (case getDbWrapper c of
        None \<Rightarrow> open_new drv c w
      | Some a \<Rightarrow>
          (case db (heap w a) of
             None \<Rightarrow> open_new drv c w
           | Some h \<Rightarrow>
               (case err (heap w a) of
                  Some e \<Rightarrow> Inl (Errorf_w ''transaction already has error:'' e)
                | None \<Rightarrow>
                    if \<not> inTransaction (heap w a) then
                      (let (tx, w1) = db_BeginTx h w;
                           w2 = w1\<lparr>heap := (heap w1)(a := (heap w1 a)\<lparr>db := Some tx,
                                                                    inTransaction := True\<rparr>)\<rparr>
                       in Inr (a, c, True, w2))
                    else Inr (a, c, False, w))))"

text \<open>
  The owner's resolution, with its \<^verbatim>\<open>defer wrapper.reset()\<close>: the reset runs on every
  way out, also when the call through \<^verbatim>\<open>wrapper.db\<close> panics.
\<close>

definition resolve ::
    "driver \<Rightarrow> nat \<Rightarrow> 'r option \<Rightarrow> error option \<Rightarrow> world \<Rightarrow> 'r outcome \<times> world" where
  "resolve drv a returnData bizErr w =
     (if bizErr \<noteq> None then
        (case db_Rollback drv (db (heap w a)) w of
           (Inl r, w1) \<Rightarrow> (Panicked r, reset a w1)
         | (Inr rberr, w1) \<Rightarrow>
             (Returned returnData bizErr,
              reset a (if rberr \<noteq> None then logger_Error ''rollback failed'' w1 else w1)))
      else if err (heap w a) \<noteq> None then
        (case db_Rollback drv (db (heap w a))
                (logger_Error ''inner transaction has err, should rollback'' w) of
           (Inl r, w1) \<Rightarrow> (Panicked r, reset a w1)
         | (Inr rberr, w1) \<Rightarrow>
             (Returned returnData (err (heap w a)),
              reset a (if rberr \<noteq> None
                       then logger_Error ''rollback for inner transaction failed'' w1 else w1)))
      else
        (case db_Commit drv (db (heap w a)) w of
           (Inl r, w1) \<Rightarrow> (Panicked r, reset a w1)
         | (Inr commitErr, w1) \<Rightarrow>
             (Returned returnData commitErr,
              reset a (if commitErr \<noteq> None then logger_Error ''commit failed'' w1 else w1))))"

text \<open>\<^verbatim>\<open>Transaction\<close> from the first \<^verbatim>\<open>ctx.Err()\<close> check to its last return.\<close>

definition body ::
    "driver \<Rightarrow> nat \<Rightarrow> ctx \<Rightarrow> bool \<Rightarrow> 'r callback \<Rightarrow> world \<Rightarrow> 'r outcome \<times> world" where
  "body drv a c txOpenByMe doTransaction w =
     (case ctxErr w of
        Some ce \<Rightarrow> (Returned None (Some ce), w)
      | None \<Rightarrow>
          (case doTransaction c w of
             (Panicked r, w1) \<Rightarrow> (Panicked r, w1)
           | (Returned returnData bizErr, w1) \<Rightarrow>
               (let w2 = (if bizErr \<noteq> None
                          then logger_Error ''doTransaction err'' (set_err a bizErr w1)
                          else w1)
                in case ctxErr w2 of
                     Some ce \<Rightarrow> (Returned None (Some ce), w2)
                   | None \<Rightarrow>
                       if txOpenByMe then resolve drv a returnData bizErr w2
                       else (Returned returnData bizErr, w2))))"

text \<open>
  The deferred function, run when the body panicked with \<open>r\<close>. The named results are
  still nil when it runs, so the call returns \<^verbatim>\<open>(nil, err0)\<close>; a panic raised inside
  it is not recovered.
\<close>

definition recover_err :: "panic_value \<Rightarrow> error" where
  "recover_err r = (case r of PanicError e \<Rightarrow> e | PanicValue s \<Rightarrow> New (''recover:'' @ s))"

definition deferred ::
    "driver \<Rightarrow> nat \<Rightarrow> bool \<Rightarrow> panic_value \<Rightarrow> world \<Rightarrow> 'r outcome \<times> world" where
  "deferred drv a txOpenByMe r w =
     (let err0 = recover_err r;
          w1 = set_err a (Some err0) (logger_Error ''panic in Transaction'' w)
      in if \<not> txOpenByMe then (Returned None (Some err0), w1)
         else
           (case db_Rollback drv (db (heap w1 a)) w1 of
              (Inl r', w2) \<Rightarrow> (Panicked r', w2)
            | (Inr rberr, w2) \<Rightarrow>
                (Returned None (Some err0),
                 reset a (if rberr \<noteq> None
                          then logger_Error ''rollback failed in recover'' w2 else w2))))"

definition Transaction :: "driver \<Rightarrow> ctx \<Rightarrow> 'r callback \<Rightarrow> world \<Rightarrow> 'r outcome \<times> world" where
  "Transaction drv c doTransaction w =
     (case enter drv c w of
        Inl e \<Rightarrow> (Returned None (Some e), w)
      | Inr (a, c', txOpenByMe, w1) \<Rightarrow>
          (case body drv a c' txOpenByMe doTransaction w1 of
             (Panicked r, w2) \<Rightarrow> deferred drv a txOpenByMe r w2
           | (Returned res e, w2) \<Rightarrow> (Returned res e, w2)))"

section \<open>Call trees\<close>

text \<open>
  A tree of nested calls: the callback of a node calls \<^verbatim>\<open>Transaction\<close> for each
  child in turn, on the context it was given, and then returns its own result and error.
\<close>

datatype 'r calltree = Node "'r calltree list" "'r option" "error option"

fun run_seq :: "driver \<Rightarrow> ctx \<Rightarrow> 'r callback list \<Rightarrow> world \<Rightarrow> world" where
  "run_seq drv c [] w = w"
| "run_seq drv c (f # fs) w = run_seq drv c fs (snd (Transaction drv c f w))"

primrec callback_of :: "driver \<Rightarrow> 'r calltree \<Rightarrow> 'r callback" where
  "callback_of drv (Node ts r e) =
     (\<lambda>c w. (Returned r e, run_seq drv c (map (callback_of drv) ts) w))"

primrec all_ok :: "'r calltree \<Rightarrow> bool" where
  "all_ok (Node ts r e) = (e = None \<and> list_all all_ok ts)"

primrec tree_data :: "'r calltree \<Rightarrow> 'r option" where
  "tree_data (Node ts r e) = r"

text \<open>
  The wrapper at \<open>a\<close> holds the handle \<open>h\<close> with its transaction open, and the
  context is not canceled: what a nested call finds.
\<close>

definition joined :: "nat \<Rightarrow> handle \<Rightarrow> world \<Rightarrow> bool" where
  "joined a h w = (db (heap w a) = Some h \<and> inTransaction (heap w a) \<and> ctxErr w = None)"

section \<open>Counting the calls issued\<close>

primrec is_Begin :: "event \<Rightarrow> bool" where
  "is_Begin (Begin h) = True"
| "is_Begin (Commit h) = False"
| "is_Begin (Rollback h) = False"

primrec is_Commit :: "event \<Rightarrow> bool" where
  "is_Commit (Begin h) = False"
| "is_Commit (Commit h) = True"
| "is_Commit (Rollback h) = False"

primrec is_Rollback :: "event \<Rightarrow> bool" where
  "is_Rollback (Begin h) = False"
| "is_Rollback (Commit h) = False"
| "is_Rollback (Rollback h) = True"

definition begins :: "event list \<Rightarrow> nat" where
  "begins t = length (filter is_Begin t)"

definition commits :: "event list \<Rightarrow> nat" where
  "commits t = length (filter is_Commit t)"

definition rollbacks :: "event list \<Rightarrow> nat" where
  "rollbacks t = length (filter is_Rollback t)"

section \<open>The manager registry\<close>

record transactionManager =
  serviceName :: string
  database :: string
  ctxDbWrapperKey :: string

text \<open>
  The package variables: \<^verbatim>\<open>tmMap\<close> from the composite key to a manager pointer, the
  managers by address, and whether \<^verbatim>\<open>mutex\<close> is held.
\<close>

record registry =
  tmMap :: "string \<Rightarrow> nat option"
  managers :: "transactionManager list"
  mutex :: bool

text \<open>
  One call, run by itself from start to end. \<open>None\<close> is a call that never returns:
  \<^verbatim>\<open>mutex.Lock()\<close> on a mutex that is held. The deferred \<^verbatim>\<open>Unlock\<close> runs on both
  returns after the lock.
\<close>

definition NewTransactionManager ::
    "string \<Rightarrow> string \<Rightarrow> registry \<Rightarrow> (nat \<times> registry) option" where
  "NewTransactionManager sn dbn reg =
     (let mapKey = sn @ '':'' @ dbn in
      case tmMap reg mapKey of
        Some tm \<Rightarrow> Some (tm, reg)
      | None \<Rightarrow>
          if mutex reg then None
          else
            (let reg1 = reg\<lparr>mutex := True\<rparr> in
             case tmMap reg1 mapKey of
               Some tm \<Rightarrow> Some (tm, reg1\<lparr>mutex := False\<rparr>)
             | None \<Rightarrow>
                 (let tm = length (managers reg1);
                      reg2 = reg1\<lparr>managers := managers reg1 @
                                     [\<lparr>serviceName = sn, database = dbn,
                                       ctxDbWrapperKey = ''dbWrapper:'' @ mapKey\<rparr>],
                                   tmMap := (tmMap reg1)(mapKey \<mapsto> tm)\<rparr>
                  in Some (tm, reg2\<lparr>mutex := False\<rparr>))))"


section \<open>The manager registry under overlapping calls\<close>











section \<open>Order options\<close>

datatype ORDER = ASC | DESC

record orderOption =
  field :: string
  order :: ORDER

definition Asc :: "string \<Rightarrow> orderOption" where
  "Asc s = \<lparr>field = s, order = ASC\<rparr>"

definition Desc :: "string \<Rightarrow> orderOption" where
  "Desc s = \<lparr>field = s, order = DESC\<rparr>"

text \<open>
  \<^verbatim>\<open>strings.ToLower\<close> on the bytes of an ASCII string: the letters A to Z go to a to z,
  every other byte stays. On a string with other letters the Go function also lowers
  those, and the field of the option returned differs from this one; no such letter
  lowers to a letter of \<^verbatim>\<open>asc\<close> or \<^verbatim>\<open>desc\<close>, so the strings lowered to
  either are the same.
\<close>

definition lower_char :: "char \<Rightarrow> char" where
  "lower_char ch =
     (case map_of (zip ''ABCDEFGHIJKLMNOPQRSTUVWXYZ'' ''abcdefghijklmnopqrstuvwxyz'') ch of
        None \<Rightarrow> ch
      | Some l \<Rightarrow> l)"

definition ToLower :: "string \<Rightarrow> string" where
  "ToLower s = map lower_char s"

definition HasSuffix :: "string \<Rightarrow> string \<Rightarrow> bool" where
  "HasSuffix s suffix =
     (length suffix \<le> length s \<and> drop (length s - length suffix) s = suffix)"

definition slice_panic :: panic_value where
  "slice_panic = PanicError (New ''runtime error: slice bounds out of range'')"

text \<open>\<^verbatim>\<open>str[:n]\<close>: a panic when \<open>n\<close> is negative or beyond the length.\<close>

definition slice_to :: "string \<Rightarrow> int \<Rightarrow> panic_value + string" where
  "slice_to s n =
     (if n < 0 \<or> int (length s) < n then Inl slice_panic else Inr (take (nat n) s))"

definition ParseOrderOption :: "string \<Rightarrow> panic_value + orderOption" where
  "ParseOrderOption str0 =
     (let str = ToLower str0 in
      if HasSuffix str ''desc'' then
        (case slice_to str (int (length str) - 5) of
           Inl p \<Rightarrow> Inl p
         | Inr s \<Rightarrow> Inr (Desc s))
      else if HasSuffix str ''asc'' then
        (case slice_to str (int (length str) - 4) of
           Inl p \<Rightarrow> Inl p
         | Inr s \<Rightarrow> Inr (Asc s))
      else Inr (Asc str))"

section \<open>Sample inputs\<close>

definition world0 :: world where
  "world0 = \<lparr>heap = (\<lambda>a. empty_wrapper), nextAddr = 0, trace = [], logs = [], ctxErr = None\<rparr>"

definition ctx0 :: ctx where
  "ctx0 = \<lparr>ctxValue = None\<rparr>"

text \<open>The state and the context an owner's callback gets after a call on \<open>ctx0\<close> in \<open>world0\<close>.\<close>

definition world_open :: world where
  "world_open =
     \<lparr>heap = (\<lambda>a. empty_wrapper)
               (0 := \<lparr>db = Some (Tx (Conn 0)), inTransaction = True, err = None\<rparr>),
      nextAddr = Suc 0, trace = [Begin (Conn 0)], logs = [], ctxErr = None\<rparr>"

definition ctx_open :: ctx where
  "ctx_open = \<lparr>ctxValue = Some 0\<rparr>"

definition canceled :: error where
  "canceled = New ''context canceled''"

definition deadline :: error where
  "deadline = New ''context deadline exceeded''"

definition stock :: error where
  "stock = New ''insufficient stock''"

definition driver0 :: driver where
  "driver0 = \<lparr>getDb = Some (Conn 0), commitError = (\<lambda>h. None), rollbackError = (\<lambda>h. None)\<rparr>"

definition driver_down :: driver where
  "driver_down = \<lparr>getDb = None, commitError = (\<lambda>h. None), rollbackError = (\<lambda>h. None)\<rparr>"

definition driver_rbfail :: driver where
  "driver_rbfail =
     \<lparr>getDb = Some (Conn 0), commitError = (\<lambda>h. None),
      rollbackError = (\<lambda>h. Some (New ''sql: transaction has already been committed or rolled back''))\<rparr>"

definition cb_ok :: "nat callback" where
  "cb_ok c w = (Returned (Some 7) None, w)"

definition cb_fail :: "nat callback" where
  "cb_fail c w = (Returned None (Some stock), w)"

definition cb_panic :: "nat callback" where
  "cb_panic c w = (Panicked (PanicValue ''boom''), w)"

text \<open>A callback whose nested call fails and which returns success all the same.\<close>

definition cb_swallow :: "nat callback" where
  "cb_swallow c w = (Returned (Some 1) None, snd (Transaction driver0 c cb_fail w))"

text \<open>A callback whose nested call panics and which returns success all the same.\<close>

definition cb_swallow_panic :: "nat callback" where
  "cb_swallow_panic c w = (Returned (Some 1) None, snd (Transaction driver0 c cb_panic w))"

text \<open>The same callbacks, with the context's deadline passing before they return.\<close>

definition cb_fail_late :: "nat callback" where
  "cb_fail_late c w = (Returned None (Some stock), w\<lparr>ctxErr := Some deadline\<rparr>)"

definition cb_swallow_late :: "nat callback" where
  "cb_swallow_late c w =
     (Returned (Some 1) None, (snd (Transaction driver0 c cb_fail w))\<lparr>ctxErr := Some deadline\<rparr>)"

definition tree0 :: "nat calltree" where
  "tree0 = Node [Node [] (Some 1) None, Node [Node [] None None] (Some 2) None] (Some 3) None"

definition registry0 :: registry where
  "registry0 = \<lparr>tmMap = (\<lambda>k. None), managers = [], mutex = False\<rparr>"



section \<open>Facts about entering a call\<close>

lemmas run_defs =
  Transaction_def enter_def open_new_def body_def resolve_def deferred_def recover_err_def
  db_BeginTx_def db_Rollback_def db_Commit_def getDbWrapper_def setDbWrapper_def
  set_err_def reset_def logger_Error_def

lemma enter_ctxErr:
  "enter drv c w = Inr (a, c', own, w1) \<Longrightarrow> ctxErr w1 = ctxErr w"
  by (auto simp: enter_def open_new_def db_BeginTx_def Let_def split: option.splits if_splits)

lemma enter_trace:
  "enter drv c w = Inr (a, c', own, w1) \<Longrightarrow>
   \<exists>h. trace w1 = trace w @ (if own then [Begin h] else [])"
  by (auto simp: enter_def open_new_def db_BeginTx_def Let_def split: option.splits if_splits)

lemma enter_owner_state:
  assumes "enter drv c w = Inr (a, c', True, w1)"
  shows "\<exists>d. getDbWrapper c' = Some a \<and> db (heap w1 a) = Some (Tx d)
           \<and> inTransaction (heap w1 a) \<and> err (heap w1 a) = None
           \<and> trace w1 = trace w @ [Begin d]"
  using assms
  by (auto simp: enter_def open_new_def db_BeginTx_def getDbWrapper_def setDbWrapper_def Let_def
      split: option.splits if_splits)

lemma enter_nonowner_state:
  assumes "enter drv c w = Inr (a, c', False, w1)"
  shows "c' = c \<and> w1 = w \<and> getDbWrapper c = Some a \<and> (\<exists>h. db (heap w a) = Some h)
           \<and> inTransaction (heap w a) \<and> err (heap w a) = None"
  using assms
  by (auto simp: enter_def open_new_def db_BeginTx_def getDbWrapper_def setDbWrapper_def Let_def
      split: option.splits if_splits)

lemma enter_world0:
  "enter driver0 ctx0 (world0\<lparr>ctxErr := ce\<rparr>) = Inr (0, ctx_open, True, world_open\<lparr>ctxErr := ce\<rparr>)"
  by (simp add: enter_def open_new_def db_BeginTx_def getDbWrapper_def setDbWrapper_def
      driver0_def ctx0_def world0_def world_open_def ctx_open_def)

lemma enter_world0_plain:
  "enter driver0 ctx0 world0 = Inr (0, ctx_open, True, world_open)"
  using enter_world0 [of None] by (simp add: world0_def world_open_def)

lemma enter_world0_rbfail:
  "enter driver_rbfail ctx0 world0 = Inr (0, ctx_open, True, world_open)"
  by (simp add: enter_def open_new_def db_BeginTx_def getDbWrapper_def setDbWrapper_def
      driver_rbfail_def ctx0_def world0_def world_open_def ctx_open_def)

lemma enter_world_open:
  "enter driver0 ctx_open world_open = Inr (0, ctx_open, False, world_open)"
  by (simp add: enter_def getDbWrapper_def world_open_def ctx_open_def)

text \<open>The nested failing call of the sample callbacks: it records its error and issues nothing.\<close>

lemma nested_fail_world_open:
  "Transaction driver0 ctx_open cb_fail world_open =
     (Returned None (Some stock),
      logger_Error ''doTransaction err'' (set_err 0 (Some stock) world_open))"
  by (simp add: run_defs world_open_def ctx_open_def driver0_def cb_fail_def stock_def
      empty_wrapper_def)

section \<open>Facts about call trees\<close>

lemma run_seq_noop:
  assumes "\<And>f. f \<in> set fs \<Longrightarrow> snd (Transaction drv c f w) = w"
  shows "run_seq drv c fs w = w"
  using assms by (induction fs) auto

text \<open>
  A call that joins an open transaction, on a tree whose callbacks all succeed, returns
  the callback's result and leaves the whole state as it was.
\<close>

lemma nonowner_ok_tree:
  "all_ok t \<Longrightarrow> getDbWrapper c = Some a \<Longrightarrow> db (heap w a) = Some h \<Longrightarrow>
   inTransaction (heap w a) \<Longrightarrow> err (heap w a) = None \<Longrightarrow> ctxErr w = None \<Longrightarrow>
   Transaction drv c (callback_of drv t) w = (Returned (tree_data t) None, w)"
proof (induction t)
  case (Node ts r e)
  have kids: "run_seq drv c (map (callback_of drv) ts) w = w"
  proof (rule run_seq_noop)
    fix f assume "f \<in> set (map (callback_of drv) ts)"
    then obtain t where t: "t \<in> set ts" and f: "f = callback_of drv t" by auto
    from Node.prems(1) t have "all_ok t" by (simp add: list_all_iff)
    with Node.IH [OF t] Node.prems f show "snd (Transaction drv c f w) = w" by simp
  qed
  from Node.prems have "e = None" by simp
  with Node.prems kids show ?case
    by (simp add: Transaction_def enter_def body_def)
qed

lemma run_seq_joined:
  assumes "\<And>f w. f \<in> set fs \<Longrightarrow> joined a h w \<Longrightarrow>
             joined a h (snd (Transaction drv c f w))
             \<and> trace (snd (Transaction drv c f w)) = trace w"
    and "joined a h w"
  shows "joined a h (run_seq drv c fs w) \<and> trace (run_seq drv c fs w) = trace w"
  using assms
proof (induction fs arbitrary: w)
  case Nil
  then show ?case by simp
next
  case (Cons f fs)
  have step: "joined a h (snd (Transaction drv c f w))
      \<and> trace (snd (Transaction drv c f w)) = trace w"
    using Cons.prems by simp
  have "joined a h (run_seq drv c fs (snd (Transaction drv c f w)))
      \<and> trace (run_seq drv c fs (snd (Transaction drv c f w)))
        = trace (snd (Transaction drv c f w))"
    using Cons.prems(1) step by (intro Cons.IH) auto
  with step show ?case by simp
qed

text \<open>
  Whatever the callbacks of a tree return, a call that joins an open transaction issues
  nothing to the handle and leaves the wrapper's handle and flag in place.
\<close>

lemma nonowner_tree_joined:
  "getDbWrapper c = Some a \<Longrightarrow> joined a h w \<Longrightarrow>
   joined a h (snd (Transaction drv c (callback_of drv t) w))
   \<and> trace (snd (Transaction drv c (callback_of drv t) w)) = trace w"
proof (induction t arbitrary: w)
  case (Node ts r e)
  have kids: "joined a h (run_seq drv c (map (callback_of drv) ts) w)
      \<and> trace (run_seq drv c (map (callback_of drv) ts) w) = trace w"
  proof (rule run_seq_joined)
    fix f w' assume "f \<in> set (map (callback_of drv) ts)" and j: "joined a h w'"
    then obtain t where t: "t \<in> set ts" and f: "f = callback_of drv t" by auto
    from Node.IH [OF t Node.prems(1) j] f
    show "joined a h (snd (Transaction drv c f w'))
        \<and> trace (snd (Transaction drv c f w')) = trace w'" by simp
  next
    show "joined a h w" by (rule Node.prems)
  qed
  show ?case
  proof (cases "err (heap w a)")
    case (Some e')
    with Node.prems show ?thesis
      by (simp add: Transaction_def enter_def joined_def)
  next
    case None
    with Node.prems kids show ?thesis
      by (auto simp: Transaction_def enter_def body_def joined_def set_err_def logger_Error_def)
  qed
qed

section \<open>The claims about Transaction\<close>

text \<open>
  C1, as amended. A call that reaches the check before the callback with its context
  canceled or timed out returns nil and the context's error, whatever the callback is
  (the callback is not run: the result and the state left behind are those of the entry
  alone), and issues no commit and no rollback. A begin has been issued before the
  check exactly when this call opened the transaction itself.
\<close>

theorem canceled_before_callback:
  assumes "enter drv c w = Inr (a, c', own, w1)"
    and "ctxErr w1 = Some ce"
  shows "Transaction drv c f w = (Returned None (Some ce), w1)
       \<and> commits (trace w1) = commits (trace w)
       \<and> rollbacks (trace w1) = rollbacks (trace w)
       \<and> begins (trace w1) = begins (trace w) + (if own then 1 else 0)"
  using assms enter_trace [OF assms(1)]
  by (auto simp: Transaction_def body_def commits_def rollbacks_def begins_def)

theorem canceled_before_callback_witness:
  "Transaction driver0 ctx0 cb_panic (world0\<lparr>ctxErr := Some canceled\<rparr>)
     = (Returned None (Some canceled), world_open\<lparr>ctxErr := Some canceled\<rparr>)
   \<and> commits (trace (world_open\<lparr>ctxErr := Some canceled\<rparr>)) = 0
   \<and> rollbacks (trace (world_open\<lparr>ctxErr := Some canceled\<rparr>)) = 0
   \<and> begins (trace (world_open\<lparr>ctxErr := Some canceled\<rparr>)) = 1"
proof -
  have e: "enter driver0 ctx0 (world0\<lparr>ctxErr := Some canceled\<rparr>)
             = Inr (0, ctx_open, True, world_open\<lparr>ctxErr := Some canceled\<rparr>)"
    by (rule enter_world0)
  have ce: "ctxErr (world_open\<lparr>ctxErr := Some canceled\<rparr>) = Some canceled" by simp
  from canceled_before_callback [OF e ce, of cb_panic] show ?thesis
    by (simp add: world0_def commits_def rollbacks_def begins_def)
qed

text \<open>
  C1 as stated fails: on a context without a wrapper that is already canceled, the call
  issues its begin before it looks at the context.
\<close>

theorem canceled_before_callback_begins:
  "ctxErr (world0\<lparr>ctxErr := Some canceled\<rparr>) = Some canceled
   \<and> fst (Transaction driver0 ctx0 cb_ok (world0\<lparr>ctxErr := Some canceled\<rparr>))
       = Returned None (Some canceled)
   \<and> trace world0 = []
   \<and> trace (snd (Transaction driver0 ctx0 cb_ok (world0\<lparr>ctxErr := Some canceled\<rparr>)))
       = [Begin (Conn 0)]"
  by (simp add: run_defs world0_def ctx0_def driver0_def cb_ok_def canceled_def
      empty_wrapper_def)

text \<open>
  C2, as amended. An owning call whose callback returns no error, whose wrapper carries
  a sticky error when the callback returns, and whose context is not canceled at that
  moment, issues one rollback on the wrapper's handle, returns the callback's result with
  the sticky error, and resets the wrapper.
\<close>

theorem sticky_error_rollback:
  assumes "enter drv c w = Inr (a, c', True, w1)"
    and "ctxErr w1 = None"
    and "f c' w1 = (Returned data None, w2)"
    and "err (heap w2 a) = Some e"
    and "db (heap w2 a) = Some h"
    and "ctxErr w2 = None"
  shows "\<exists>w'. Transaction drv c f w = (Returned data (Some e), w')
            \<and> trace w' = trace w2 @ [Rollback h]
            \<and> heap w' a = empty_wrapper"
  using assms
  by (auto simp: Transaction_def body_def resolve_def db_Rollback_def reset_def logger_Error_def)

theorem sticky_error_rollback_witness:
  "\<exists>w'. Transaction driver0 ctx0 cb_swallow world0 = (Returned (Some 1) (Some stock), w')
        \<and> trace w' = [Begin (Conn 0), Rollback (Tx (Conn 0))]
        \<and> heap w' 0 = empty_wrapper"
proof -
  let ?w2 = "logger_Error ''doTransaction err'' (set_err 0 (Some stock) world_open)"
  have cb: "cb_swallow ctx_open world_open = (Returned (Some 1) None, ?w2)"
    by (simp add: cb_swallow_def nested_fail_world_open)
  have ce: "ctxErr world_open = None" and er: "err (heap ?w2 0) = Some stock"
    and d: "db (heap ?w2 0) = Some (Tx (Conn 0))" and ce2: "ctxErr ?w2 = None"
    by (simp_all add: world_open_def set_err_def logger_Error_def)
  note sticky_error_rollback
    [of driver0 ctx0 world0 0 ctx_open world_open cb_swallow "Some 1" ?w2 stock "Tx (Conn 0)",
     OF enter_world0_plain ce cb er d ce2]
  then show ?thesis
    by (simp add: world_open_def set_err_def logger_Error_def)
qed

text \<open>
  C2 as stated fails: when the context's deadline passes before the callback returns,
  the owner returns the context's error and issues no rollback, with the sticky error
  still on the wrapper.
\<close>

theorem sticky_error_canceled_no_rollback:
  "enter driver0 ctx0 world0 = Inr (0, ctx_open, True, world_open)
   \<and> fst (cb_swallow_late ctx_open world_open) = Returned (Some 1) None
   \<and> err (heap (snd (cb_swallow_late ctx_open world_open)) 0) = Some stock
   \<and> fst (Transaction driver0 ctx0 cb_swallow_late world0) = Returned None (Some deadline)
   \<and> trace (snd (Transaction driver0 ctx0 cb_swallow_late world0)) = [Begin (Conn 0)]"
  by (simp add: run_defs world0_def ctx0_def world_open_def ctx_open_def driver0_def
      cb_fail_def cb_swallow_late_def deadline_def stock_def empty_wrapper_def)

text \<open>
  C3. When the callback panics, the call returns nil and the panic's value as an error
  (the value itself when it is an error, else an error made from it). A call that does
  not own the transaction leaves that error on the wrapper, issues nothing and does not
  reset; an owner, whose wrapper's handle is in place, issues one rollback on it with
  that error on the wrapper, and then resets the wrapper to empty.
\<close>

theorem panic_recovered:
  assumes "enter drv c w = Inr (a, c', own, w1)"
    and "ctxErr w1 = None"
    and "f c' w1 = (Panicked r, w2)"
    and "own \<longrightarrow> db (heap w2 a) = Some h"
  shows "\<exists>w'. Transaction drv c f w = (Returned None (Some (recover_err r)), w')
            \<and> (if own
               then (\<exists>wr. w' = reset a wr \<and> err (heap wr a) = Some (recover_err r)
                        \<and> trace wr = trace w2 @ [Rollback h])
                  \<and> trace w' = trace w2 @ [Rollback h] \<and> heap w' a = empty_wrapper
               else trace w' = trace w2
                  \<and> heap w' a = (heap w2 a)\<lparr>err := Some (recover_err r)\<rparr>)"
proof (cases own)
  case True
  let ?w3 = "set_err a (Some (recover_err r)) (logger_Error ''panic in Transaction'' w2)"
  let ?w4 = "?w3\<lparr>trace := trace ?w3 @ [Rollback h]\<rparr>"
  let ?wr = "if rollbackError drv h \<noteq> None
             then logger_Error ''rollback failed in recover'' ?w4 else ?w4"
  from True assms have d: "db (heap ?w3 a) = Some h"
    by (simp add: set_err_def logger_Error_def)
  from True assms d
  have run: "Transaction drv c f w = (Returned None (Some (recover_err r)), reset a ?wr)"
    by (simp add: Transaction_def body_def deferred_def db_Rollback_def Let_def)
  have "err (heap ?wr a) = Some (recover_err r)" and "trace ?wr = trace w2 @ [Rollback h]"
    by (simp_all add: set_err_def logger_Error_def)
  moreover have "trace (reset a ?wr) = trace w2 @ [Rollback h]"
    and "heap (reset a ?wr) a = empty_wrapper"
    by (simp_all add: reset_def set_err_def logger_Error_def)
  ultimately show ?thesis using True run by auto
next
  case False
  with assms show ?thesis
    by (auto simp: Transaction_def body_def deferred_def set_err_def logger_Error_def Let_def)
qed

theorem panic_recovered_witness:
  "\<exists>w'. Transaction driver0 ctx0 cb_panic world0
           = (Returned None (Some (New ''recover:boom'')), w')
        \<and> trace w' = [Begin (Conn 0), Rollback (Tx (Conn 0))]
        \<and> heap w' 0 = empty_wrapper"
proof -
  have cb: "cb_panic ctx_open world_open = (Panicked (PanicValue ''boom''), world_open)"
    by (simp add: cb_panic_def)
  have own: "True \<longrightarrow> db (heap world_open 0) = Some (Tx (Conn 0))"
    by (simp add: world_open_def)
  have ce: "ctxErr world_open = None" by (simp add: world_open_def)
  from panic_recovered
    [of driver0 ctx0 world0 0 ctx_open True world_open cb_panic "PanicValue ''boom''"
        world_open "Tx (Conn 0)", OF enter_world0_plain ce cb own]
  show ?thesis
    by (auto simp: recover_err_def world_open_def)
qed

text \<open>
  The nested case: the inner call, which does not own the transaction, turns its
  callback's panic into an error and leaves it on the wrapper; the owner, whose own
  callback returned success, then rolls back and returns that error.
\<close>

lemma nested_panic_owner_rolls_back:
  "fst (Transaction driver0 ctx_open cb_panic world_open)
     = Returned None (Some (New ''recover:boom''))
   \<and> trace (snd (Transaction driver0 ctx_open cb_panic world_open)) = [Begin (Conn 0)]
   \<and> fst (Transaction driver0 ctx0 cb_swallow_panic world0)
       = Returned (Some 1) (Some (New ''recover:boom''))
   \<and> trace (snd (Transaction driver0 ctx0 cb_swallow_panic world0))
       = [Begin (Conn 0), Rollback (Tx (Conn 0))]"
  by (simp add: run_defs world0_def ctx0_def world_open_def ctx_open_def driver0_def
      cb_panic_def cb_swallow_panic_def empty_wrapper_def Let_def)

text \<open>
  C4. A call on a context whose wrapper holds a handle and a sticky error returns nil
  and an error wrapping the sticky one, whatever the callback is, and leaves the whole
  state as it was: nothing is opened, issued or written.
\<close>

theorem sticky_error_entry_fails:
  assumes "getDbWrapper c = Some a"
    and "db (heap w a) = Some h"
    and "err (heap w a) = Some e"
  shows "Transaction drv c f w
           = (Returned None (Some (Errorf_w ''transaction already has error:'' e)), w)"
  using assms by (simp add: Transaction_def enter_def)

theorem sticky_error_entry_fails_witness:
  "Transaction driver0 ctx_open cb_panic (set_err 0 (Some stock) world_open)
     = (Returned None (Some (Errorf_w ''transaction already has error:'' stock)),
        set_err 0 (Some stock) world_open)"
proof -
  have "getDbWrapper ctx_open = Some 0"
    and "db (heap (set_err 0 (Some stock) world_open) 0) = Some (Tx (Conn 0))"
    and "err (heap (set_err 0 (Some stock) world_open) 0) = Some stock"
    by (simp_all add: getDbWrapper_def ctx_open_def set_err_def world_open_def)
  then show ?thesis by (rule sticky_error_entry_fails)
qed

text \<open>
  C5. Take a tree of nested calls whose callbacks all return no error, on a context that
  is not canceled. When the outermost call opens the transaction, the calls issued from
  its start to its return are the begin and one commit on the transactional handle, in
  that order, and no rollback; it returns its callback's result with the commit's error.
  When the call joins an open transaction instead, it returns its callback's result and
  a nil error, and the whole state is as before: nothing was issued. And a joining call
  on any tree, whatever its callbacks return, issues nothing.
\<close>

theorem successful_tree_one_commit:
  assumes "all_ok t"
    and "ctxErr w = None"
  shows "(enter drv c w = Inr (a, c', True, w1) \<longrightarrow>
            (\<exists>d w'. trace w1 = trace w @ [Begin d]
                \<and> Transaction drv c (callback_of drv t) w
                    = (Returned (tree_data t) (commitError drv (Tx d)), w')
                \<and> trace w' = trace w @ [Begin d, Commit (Tx d)]
                \<and> heap w' a = empty_wrapper))
       \<and> (enter drv c w = Inr (a, c', False, w1) \<longrightarrow>
            Transaction drv c (callback_of drv t) w = (Returned (tree_data t) None, w))
       \<and> (enter drv c w = Inr (a, c', False, w1) \<longrightarrow>
            trace (snd (Transaction drv c (callback_of drv u) w)) = trace w)"
proof (intro conjI impI)
  assume own: "enter drv c w = Inr (a, c', True, w1)"
  from enter_owner_state [OF own] obtain d where
    st: "getDbWrapper c' = Some a" "db (heap w1 a) = Some (Tx d)" "inTransaction (heap w1 a)"
        "err (heap w1 a) = None" "trace w1 = trace w @ [Begin d]" by blast
  have ce: "ctxErr w1 = None" using enter_ctxErr [OF own] assms(2) by simp
  obtain ts r e where t: "t = Node ts r e" by (cases t)
  with assms(1) have e: "e = None" and kids_ok: "list_all all_ok ts" by simp_all
  have kids: "run_seq drv c' (map (callback_of drv) ts) w1 = w1"
  proof (rule run_seq_noop)
    fix f assume "f \<in> set (map (callback_of drv) ts)"
    then obtain t' where t': "t' \<in> set ts" and f: "f = callback_of drv t'" by auto
    from kids_ok t' have "all_ok t'" by (simp add: list_all_iff)
    from nonowner_ok_tree [OF this st(1) st(2) st(3) st(4) ce] f
    show "snd (Transaction drv c' f w1) = w1" by simp
  qed
  show "\<exists>d w'. trace w1 = trace w @ [Begin d]
                \<and> Transaction drv c (callback_of drv t) w
                    = (Returned (tree_data t) (commitError drv (Tx d)), w')
                \<and> trace w' = trace w @ [Begin d, Commit (Tx d)]
                \<and> heap w' a = empty_wrapper"
    using own st ce kids t e
    by (simp add: Transaction_def body_def resolve_def db_Commit_def reset_def logger_Error_def)
next
  assume no: "enter drv c w = Inr (a, c', False, w1)"
  from enter_nonowner_state [OF no] obtain h where
    "getDbWrapper c = Some a" "db (heap w a) = Some h" "inTransaction (heap w a)"
    "err (heap w a) = None"
    by blast
  from nonowner_ok_tree [OF assms(1) this assms(2)]
  show "Transaction drv c (callback_of drv t) w = (Returned (tree_data t) None, w)" .
next
  assume no: "enter drv c w = Inr (a, c', False, w1)"
  from enter_nonowner_state [OF no] obtain h where
    "getDbWrapper c = Some a" "joined a h w"
    using assms(2) by (auto simp: joined_def)
  from nonowner_tree_joined [OF this, of drv u]
  show "trace (snd (Transaction drv c (callback_of drv u) w)) = trace w" by simp
qed

theorem successful_tree_one_commit_witness:
  "(\<exists>w'. Transaction driver0 ctx0 (callback_of driver0 tree0) world0 = (Returned (Some 3) None, w')
         \<and> trace w' = [Begin (Conn 0), Commit (Tx (Conn 0))])
   \<and> Transaction driver0 ctx_open (callback_of driver0 tree0) world_open
       = (Returned (Some 3) None, world_open)"
proof -
  have ok: "all_ok tree0" by (simp add: tree0_def)
  have ce: "ctxErr world0 = None" and ce': "ctxErr world_open = None"
    by (simp_all add: world0_def world_open_def)
  have td: "tree_data tree0 = Some 3" by (simp add: tree0_def)
  have tr: "trace world_open = [Begin (Conn 0)]" "trace world0 = []"
    by (simp_all add: world0_def world_open_def)
  from successful_tree_one_commit [OF ok ce, of driver0 ctx0 0 ctx_open world_open tree0]
    enter_world0_plain
  obtain d w' where
    "trace world_open = trace world0 @ [Begin d]"
    "Transaction driver0 ctx0 (callback_of driver0 tree0) world0
       = (Returned (tree_data tree0) (commitError driver0 (Tx d)), w')"
    "trace w' = trace world0 @ [Begin d, Commit (Tx d)]"
    by blast
  with tr td have first:
    "\<exists>w'. Transaction driver0 ctx0 (callback_of driver0 tree0) world0 = (Returned (Some 3) None, w')
         \<and> trace w' = [Begin (Conn 0), Commit (Tx (Conn 0))]"
    by (simp add: driver0_def)
  from successful_tree_one_commit [OF ok ce', of driver0 ctx_open 0 ctx_open world_open tree0]
    enter_world_open td
  have "Transaction driver0 ctx_open (callback_of driver0 tree0) world_open
       = (Returned (Some 3) None, world_open)"
    by simp
  with first show ?thesis by simp
qed

text \<open>
  C6, as amended. An owning call whose callback returns a business error, and whose
  context is not canceled when the callback returns, issues one rollback on the
  wrapper's handle and returns the callback's result with the business error, also when
  the rollback fails: the failure goes to the log and not into the result. The wrapper
  is left empty.
\<close>

theorem business_error_rollback:
  assumes "enter drv c w = Inr (a, c', True, w1)"
    and "ctxErr w1 = None"
    and "f c' w1 = (Returned data (Some e), w2)"
    and "db (heap w2 a) = Some h"
    and "ctxErr w2 = None"
  shows "\<exists>w'. Transaction drv c f w = (Returned data (Some e), w')
            \<and> trace w' = trace w2 @ [Rollback h]
            \<and> logs w' = logs w2 @ ''doTransaction err'' #
                  (if rollbackError drv h = None then [] else [''rollback failed''])
            \<and> heap w' a = empty_wrapper"
  using assms
  by (auto simp: Transaction_def body_def resolve_def db_Rollback_def set_err_def reset_def
      logger_Error_def Let_def)

theorem business_error_rollback_witness:
  "\<exists>w'. Transaction driver_rbfail ctx0 cb_fail world0 = (Returned None (Some stock), w')
        \<and> trace w' = [Begin (Conn 0), Rollback (Tx (Conn 0))]
        \<and> logs w' = [''doTransaction err'', ''rollback failed'']
        \<and> heap w' 0 = empty_wrapper"
proof -
  have ce: "ctxErr world_open = None" and d: "db (heap world_open 0) = Some (Tx (Conn 0))"
    by (simp_all add: world_open_def)
  have cb: "cb_fail ctx_open world_open = (Returned None (Some stock), world_open)"
    by (simp add: cb_fail_def)
  from business_error_rollback
    [of driver_rbfail ctx0 world0 0 ctx_open world_open cb_fail None stock world_open
        "Tx (Conn 0)", OF enter_world0_rbfail ce cb d ce]
  show ?thesis by (simp add: world_open_def driver_rbfail_def)
qed

text \<open>
  C6 as stated fails: when the context's deadline passes before the callback returns its
  business error, the owner returns the context's error and issues no rollback.
\<close>

theorem business_error_canceled_no_rollback:
  "enter driver0 ctx0 world0 = Inr (0, ctx_open, True, world_open)
   \<and> fst (cb_fail_late ctx_open world_open) = Returned None (Some stock)
   \<and> fst (Transaction driver0 ctx0 cb_fail_late world0) = Returned None (Some deadline)
   \<and> trace (snd (Transaction driver0 ctx0 cb_fail_late world0)) = [Begin (Conn 0)]"
  by (simp add: run_defs world0_def ctx0_def world_open_def ctx_open_def driver0_def
      cb_fail_late_def deadline_def stock_def empty_wrapper_def)

section \<open>The claims about GetDb and the entry without a connection\<close>

text \<open>
  C7. When the context has a wrapper that holds a handle, \<^verbatim>\<open>GetDb\<close> returns that
  handle; otherwise it returns what the connection source returns. In both cases the
  state is as before: nothing is issued to a handle and no wrapper is written.
\<close>

theorem GetDb_returns_handle:
  "(getDbWrapper c = Some a \<and> db (heap w a) = Some h \<longrightarrow> GetDb drv c w = (Some h, w))
   \<and> (getDbWrapper c = None \<or> (getDbWrapper c = Some a \<and> db (heap w a) = None) \<longrightarrow>
        GetDb drv c w = (getDb drv, w))
   \<and> snd (GetDb drv c w) = w"
  by (auto simp: GetDb_def split: option.splits)

theorem GetDb_returns_handle_witness:
  "GetDb driver0 ctx_open world_open = (Some (Tx (Conn 0)), world_open)
   \<and> GetDb driver0 ctx0 world0 = (Some (Conn 0), world0)"
proof -
  have "getDbWrapper ctx_open = Some 0 \<and> db (heap world_open 0) = Some (Tx (Conn 0))"
    and "getDbWrapper ctx0 = None" and "getDb driver0 = Some (Conn 0)"
    by (simp_all add: getDbWrapper_def ctx_open_def ctx0_def world_open_def driver0_def)
  with GetDb_returns_handle [of ctx_open 0 world_open "Tx (Conn 0)" driver0]
    GetDb_returns_handle [of ctx0 0 world0 "Conn 0" driver0]
  show ?thesis by simp
qed

text \<open>
  C8. A call on a context with no wrapper, or with a wrapper that holds no handle,
  when the connection source returns nil, returns nil and the error
  \<^verbatim>\<open>can not get db connection\<close>, whatever the callback is, and leaves the whole state as it
  was: no wrapper is made.
\<close>

theorem no_connection_fails:
  assumes "getDbWrapper c = None \<or> (\<exists>a. getDbWrapper c = Some a \<and> db (heap w a) = None)"
    and "getDb drv = None"
  shows "Transaction drv c f w
           = (Returned None (Some (New ''can not get db connection'')), w)"
  using assms by (auto simp: Transaction_def enter_def open_new_def)

theorem no_connection_fails_witness:
  "Transaction driver_down ctx0 cb_panic world0
     = (Returned None (Some (New ''can not get db connection'')), world0)"
proof -
  have "getDbWrapper ctx0 = None \<or> (\<exists>a. getDbWrapper ctx0 = Some a \<and> db (heap world0 a) = None)"
    and "getDb driver_down = None"
    by (simp_all add: getDbWrapper_def ctx0_def driver_down_def)
  then show ?thesis by (rule no_connection_fails)
qed

section \<open>The claim about the manager registry\<close>





section \<open>The registry under overlapping calls\<close>



















text \<open>
  The converse does not hold: the key joins the two strings with a colon, so two
  different pairs can share a key and with it a manager.
\<close>

lemma NewTransactionManager_key_collision:
  "fst (the (NewTransactionManager ''a'' ''b:c''
          (snd (the (NewTransactionManager ''a:b'' ''c'' registry0)))))
     = fst (the (NewTransactionManager ''a:b'' ''c'' registry0))"
  by (simp add: NewTransactionManager_def registry0_def Let_def)

section \<open>The claim about ParseOrderOption\<close>

text \<open>The examples of the function's comment.\<close>

lemma ParseOrderOption_examples:
  "ParseOrderOption ''CREATE_TIME'' = Inr (Asc ''create_time'')"
  "ParseOrderOption ''CREATE_TIME_DESC'' = Inr (Desc ''create_time'')"
  "ParseOrderOption ''CREATE_TIME DESC'' = Inr (Desc ''create_time'')"
  "ParseOrderOption ''CREATE_TIME_ASC'' = Inr (Asc ''create_time'')"
  "ParseOrderOption ''CREATE_TIME ASC'' = Inr (Asc ''create_time'')"
  by (simp_all add: ParseOrderOption_def ToLower_def lower_char_def HasSuffix_def slice_to_def)

lemma ToLower_samples:
  "ToLower ''Desc'' = ''desc''" "ToLower ''ASC'' = ''asc''" "ToLower ''xasc'' = ''xasc''"
  by (simp_all add: ToLower_def lower_char_def)

text \<open>
  C10. \<^verbatim>\<open>ParseOrderOption\<close> panics, with the slice bounds error, exactly on the
  strings whose lower-case form is \<^verbatim>\<open>asc\<close> or \<^verbatim>\<open>desc\<close>; on every other string it
  returns an option.
\<close>

theorem ParseOrderOption_panics_iff:
  "(ParseOrderOption s = Inl slice_panic) = (ToLower s = ''asc'' \<or> ToLower s = ''desc'')
   \<and> (\<exists>oo. ParseOrderOption s = Inr oo) = (ToLower s \<noteq> ''asc'' \<and> ToLower s \<noteq> ''desc'')"
proof -
  let ?l = "ToLower s"
  have d: "HasSuffix ?l ''desc'' \<Longrightarrow> (int (length ?l) - 5 < 0) = (?l = ''desc'')"
    by (auto simp: HasSuffix_def)
  have a: "HasSuffix ?l ''asc'' \<Longrightarrow> (int (length ?l) - 4 < 0) = (?l = ''asc'')"
    by (auto simp: HasSuffix_def)
  have nd: "\<not> HasSuffix ?l ''desc'' \<Longrightarrow> ?l \<noteq> ''desc''" by (auto simp: HasSuffix_def)
  have na: "\<not> HasSuffix ?l ''asc'' \<Longrightarrow> ?l \<noteq> ''asc''" by (auto simp: HasSuffix_def)
  have da: "HasSuffix ?l ''desc'' \<Longrightarrow> ?l \<noteq> ''asc''" by (auto simp: HasSuffix_def)
  show ?thesis
    using d a nd na da
    by (auto simp: ParseOrderOption_def Let_def slice_to_def split: sum.splits)
qed

theorem ParseOrderOption_panics_iff_witness:
  "ParseOrderOption ''Desc'' = Inl slice_panic
   \<and> ParseOrderOption ''ASC'' = Inl slice_panic
   \<and> (\<exists>oo. ParseOrderOption ''xasc'' = Inr oo)"
  using ParseOrderOption_panics_iff [of "''Desc''"] ParseOrderOption_panics_iff [of "''ASC''"]
    ParseOrderOption_panics_iff [of "''xasc''"]
  by (simp add: ToLower_samples)

end
